theory Spec2Isabelle
  imports Main "HOL-Library.Multiset"
begin

section \<open>EcoQuest backend: a shallow embedding of backend/main.py\<close>

text \<open>
  The service keeps three tables (users, challenges, submissions) in a relational store
  and exposes the handlers register, login, get_challenges, create_challenge, submit and
  leaderboard. Each handler is modelled as a function from the database state (and the
  request) to the new database state and either the raised \<open>HTTPException\<close> or the
  returned body.

  Conventions of the embedding:
  \<^item> Python integers (ids, points, timestamps) are \<open>int\<close>. The store keeps an integer
    column in 64 bits: binding an integer outside that range to a statement raises
    \<open>OverflowError\<close>, which ends the request with the server error 500 and leaves the
    tables as they were. The ids of stored rows fit, since the store assigned them; the
    integers that come from a request or from the addition of points are checked.
  \<^item> A table is the list of its rows in insertion (rowid) order; \<open>.first()\<close> is
    \<open>find\<close> on that list.
  \<^item> Record fields carry the name of their class as a prefix (\<open>User.points\<close> is
    \<open>User_points\<close>), since several classes of the source share field names.
  \<^item> The clock (\<open>datetime.utcnow()\<close>) is an explicit argument \<open>now\<close>, in whole
    seconds since the epoch, the resolution at which a token carries its expiry; a
    \<open>timedelta\<close> is a number of seconds.
  \<^item> The password hashing context (passlib) and the token codec (jose) are libraries
    outside the repository; they are taken as parameters, bundled in the record
    \<open>libs\<close>. The salt that the hashing context draws at random is an explicit argument.
\<close>

subsection \<open>Configuration\<close>

definition SECRET_KEY :: string where
  "SECRET_KEY = ''ecoquestsecret''"

definition ALGORITHM :: string where
  "ALGORITHM = ''HS256''"

definition ACCESS_TOKEN_EXPIRE_MINUTES :: int where
  "ACCESS_TOKEN_EXPIRE_MINUTES = 60"

text \<open>\<open>timedelta(minutes=m)\<close>, in seconds.\<close>

definition timedelta_minutes :: "int \<Rightarrow> int" where
  "timedelta_minutes m = m * 60"

subsection \<open>Models\<close>

record User =
  User_id :: int
  User_username :: string
  User_hashed_password :: string
  User_role :: string
  User_points :: int

record Challenge =
  Challenge_id :: int
  Challenge_title :: string
  Challenge_description :: string
  Challenge_points :: int

record Submission =
  Submission_id :: int
  Submission_proof_text :: string
  Submission_status :: string
  Submission_user_id :: int
  Submission_challenge_id :: int

record DB =
  users :: "User list"
  challenges :: "Challenge list"
  submissions :: "Submission list"

text \<open>The state after \<open>Base.metadata.create_all\<close> on a fresh file: three empty tables.\<close>

definition empty_db :: DB where
  "empty_db = \<lparr>users = [], challenges = [], submissions = []\<rparr>"

text \<open>
  An integer primary key that is not given on insert is assigned by the store: one more
  than the largest id of the table, and 1 for an empty table.
\<close>

definition next_id :: "int list \<Rightarrow> int" where
  "next_id ids = (if ids = [] then 1 else Max (set ids) + 1)"

text \<open>The range of a stored integer.\<close>

definition in_int64 :: "int \<Rightarrow> bool" where
  "in_int64 i \<longleftrightarrow> - (2 ^ 63) \<le> i \<and> i < 2 ^ 63"

text \<open>
  \<open>db.commit()\<close>: the pending writes of the session are stored in one transaction. If one
  of the integers bound to its statements does not fit, the commit raises and the
  transaction is rolled back: none of the pending writes is stored.
\<close>

definition commit :: "DB \<Rightarrow> DB \<Rightarrow> int list \<Rightarrow> DB option" where
  "commit db pending bound = (if list_all in_int64 bound then Some pending else None)"

subsection \<open>Schemas\<close>

record RegisterRequest =
  RegisterRequest_username :: string
  RegisterRequest_password :: string

record LoginRequest =
  LoginRequest_username :: string
  LoginRequest_password :: string

record ChallengeCreate =
  ChallengeCreate_title :: string
  ChallengeCreate_description :: string
  ChallengeCreate_points :: int

record SubmissionCreate =
  SubmissionCreate_challenge_id :: int
  SubmissionCreate_proof_text :: string

subsection \<open>Errors and response bodies\<close>

datatype HTTPException = HTTPException (status_code: int) (detail: string)

text \<open>What the client sees when a handler ends with an exception that nothing catches.\<close>

definition server_error :: HTTPException where
  "server_error = HTTPException 500 ''Internal Server Error''"

text \<open>The body \<open>{"msg": ...}\<close>.\<close>

datatype Msg = Msg (msg: string)

record LoginResponse =
  access_token :: string
  token_type :: string
  LoginResponse_role :: string
  LoginResponse_username :: string
  LoginResponse_points :: int

record ChallengeOut =
  ChallengeOut_id :: int
  ChallengeOut_title :: string
  ChallengeOut_description :: string
  ChallengeOut_points :: int

record LeaderboardEntry =
  LeaderboardEntry_username :: string
  LeaderboardEntry_points :: int
  LeaderboardEntry_role :: string

subsection \<open>The libraries\<close>

text \<open>
  The token payload: the two claims the service writes and reads. \<open>exp\<close> is the expiry
  as the codec stores it, in seconds since the epoch.
\<close>

record claims =
  sub :: "string option"
  exp :: "int option"

text \<open>
  The exceptions of the token codec. In the library all three are \<open>JWTError\<close> or
  subclasses of it, so a handler \<open>except JWTError\<close> catches each of them.
\<close>

datatype jwt_error = JWTError | ExpiredSignatureError | JWTClaimsError

record libs =
  pwd_hash :: "string \<Rightarrow> string \<Rightarrow> string"
  pwd_verify :: "string \<Rightarrow> string \<Rightarrow> bool"
  jwt_encode :: "claims \<Rightarrow> string \<Rightarrow> string \<Rightarrow> string"
  jwt_decode :: "string \<Rightarrow> string \<Rightarrow> string list \<Rightarrow> int \<Rightarrow> jwt_error + claims"

text \<open>
  \<open>pwd_hash L salt password\<close> is \<open>pwd_context.hash(password)\<close> when the context draws
  \<open>salt\<close>; \<open>pwd_verify L password hashed\<close> is \<open>pwd_context.verify(password, hashed)\<close>;
  \<open>jwt_encode L payload key algorithm\<close> is \<open>jwt.encode\<close>; and
  \<open>jwt_decode L token key algorithms now\<close> is \<open>jwt.decode\<close> called at time \<open>now\<close>.
\<close>

subsection \<open>The token module as the specification describes it\<close>

text \<open>
  Modelled from the spec: the tokens of the token module (section 4.2), whose code is the
  library behind \<open>jwt.encode\<close> and \<open>jwt.decode\<close> and is not in the repository. A token is
  kept symbolically: a string that is no token at all, or a payload together with the
  key and the algorithm it was signed with.
\<close>

datatype token = Junk string | Signed claims string string

text \<open>
  Modelled from the spec: \<open>issue\<close> "encodes {subject, expiresAt} and signs with a
  process-wide secret key".
\<close>

definition token_issue :: "claims \<Rightarrow> string \<Rightarrow> string \<Rightarrow> token" where
  "token_issue payload key algorithm = Signed payload key algorithm"

text \<open>
  Modelled from the spec: \<open>verify\<close> "decodes and checks signature and expiry. Fails with
  Malformed if the structure or signature is invalid, Expired if past expiresAt". The
  library names the two errors \<open>JWTError\<close> and \<open>ExpiredSignatureError\<close>; a payload
  without expiry does not expire.
\<close>

definition token_verify :: "token \<Rightarrow> string \<Rightarrow> string list \<Rightarrow> int \<Rightarrow> jwt_error + claims" where
  "token_verify t key algorithms now =
     (case t of
        Junk s \<Rightarrow> Inl JWTError
      | Signed payload k a \<Rightarrow>
          if k = key \<and> a \<in> set algorithms
          then (case exp payload of
                  None \<Rightarrow> Inr payload
                | Some e \<Rightarrow> if e < now then Inl ExpiredSignatureError else Inr payload)
          else Inl JWTError)"

subsection \<open>Python helpers\<close>

text \<open>\<open>s.startswith(p)\<close>.\<close>

definition startswith :: "string \<Rightarrow> string \<Rightarrow> bool" where
  "startswith s p = (take (length p) s = p)"

text \<open>\<open>s.split(sep)\<close> for a one-character separator: every occurrence splits.\<close>

fun split_sep :: "char \<Rightarrow> string \<Rightarrow> string list" where
  "split_sep c [] = [[]]"
| "split_sep c (x # xs) =
     (if x = c then [] # split_sep c xs
      else (case split_sep c xs of
              [] \<Rightarrow> [[x]]
            | w # ws \<Rightarrow> (x # w) # ws))"

text \<open>\<open>str(i)\<close> for an integer, as the f-string of \<open>submit\<close> renders it.\<close>

fun str_nat :: "nat \<Rightarrow> string" where
  "str_nat n =
     (if n < 10 then [''0123456789'' ! n]
      else str_nat (n div 10) @ [''0123456789'' ! (n mod 10)])"

definition str_int :: "int \<Rightarrow> string" where
  "str_int i = (if i < 0 then CHR ''-'' # str_nat (nat (- i)) else str_nat (nat i))"

subsection \<open>Seeding\<close>

definition add_user :: "DB \<Rightarrow> string \<Rightarrow> string \<Rightarrow> string \<Rightarrow> int \<Rightarrow> DB" where
  "add_user db name hashed r p =
     db\<lparr>users := users db @
        [\<lparr>User_id = next_id (map User_id (users db)), User_username = name,
          User_hashed_password = hashed, User_role = r, User_points = p\<rparr>]\<rparr>"

definition seed_admin :: "libs \<Rightarrow> string \<Rightarrow> DB \<Rightarrow> DB" where
  "seed_admin L salt db =
     (case find (\<lambda>u. User_username u = ''admin'') (users db) of
        None \<Rightarrow> add_user db ''admin'' (pwd_hash L salt ''admin123'') ''admin'' 0
      | Some admin \<Rightarrow> db)"

subsection \<open>Utils\<close>

text \<open>
  The payload that \<open>create_access_token\<close> hands to the codec: a copy of \<open>data\<close> with
  the expiry added. \<open>expires_delta or timedelta(minutes=15)\<close> takes the fallback when
  the argument is \<open>None\<close> and also when it is the zero duration, which is falsy.
\<close>

definition to_encode :: "claims \<Rightarrow> int option \<Rightarrow> int \<Rightarrow> claims" where
  "to_encode data expires_delta now =
     (let expire = now + (case expires_delta of
                            None \<Rightarrow> timedelta_minutes 15
                          | Some d \<Rightarrow> if d = 0 then timedelta_minutes 15 else d)
      in data\<lparr>exp := Some expire\<rparr>)"

definition create_access_token :: "libs \<Rightarrow> int \<Rightarrow> claims \<Rightarrow> int option \<Rightarrow> string" where
  "create_access_token L now data expires_delta =
     jwt_encode L (to_encode data expires_delta now) SECRET_KEY ALGORITHM"

text \<open>
  The authorization guard. \<open>authorization.split(" ")[1]\<close> cannot raise once the prefix
  check has passed; the branch is kept as the server error an uncaught exception gives.
\<close>

definition get_current_user :: "libs \<Rightarrow> int \<Rightarrow> DB \<Rightarrow> string \<Rightarrow> HTTPException + User" where
  "get_current_user L now db authorization =
     (if \<not> startswith authorization ''Bearer ''
      then Inl (HTTPException 401 ''Invalid auth header'')
      else (case split_sep CHR '' '' authorization of
              _ # token # _ \<Rightarrow>
                (case jwt_decode L token SECRET_KEY [ALGORITHM] now of
                   Inl e \<Rightarrow> Inl (HTTPException 401 ''Invalid token'')
                 | Inr payload \<Rightarrow>
                     (case sub payload of
                        None \<Rightarrow> Inl (HTTPException 401 ''Invalid token'')
                      | Some username \<Rightarrow>
                          if username = [] then Inl (HTTPException 401 ''Invalid token'')
                          else (case find (\<lambda>u. User_username u = username) (users db) of
                                  None \<Rightarrow> Inl (HTTPException 404 ''User not found'')
                                | Some user \<Rightarrow> Inr user)))
            | _ \<Rightarrow> Inl server_error))"

subsection \<open>Routes\<close>

definition register :: "libs \<Rightarrow> string \<Rightarrow> DB \<Rightarrow> RegisterRequest \<Rightarrow> DB \<times> (HTTPException + Msg)" where
  "register L salt db req =
     (case find (\<lambda>u. User_username u = RegisterRequest_username req) (users db) of
        Some u \<Rightarrow> (db, Inl (HTTPException 400 ''Username taken''))
      | None \<Rightarrow>
          (add_user db (RegisterRequest_username req)
             (pwd_hash L salt (RegisterRequest_password req)) ''student'' 0,
           Inr (Msg ''User registered'')))"

definition login :: "libs \<Rightarrow> int \<Rightarrow> DB \<Rightarrow> LoginRequest \<Rightarrow> HTTPException + LoginResponse" where
  "login L now db req =
     (case find (\<lambda>u. User_username u = LoginRequest_username req) (users db) of
        None \<Rightarrow> Inl (HTTPException 400 ''Invalid credentials'')
      | Some user \<Rightarrow>
          if \<not> pwd_verify L (LoginRequest_password req) (User_hashed_password user)
          then Inl (HTTPException 400 ''Invalid credentials'')
          else Inr \<lparr>access_token =
                      create_access_token L now
                        \<lparr>sub = Some (LoginRequest_username req), exp = None\<rparr>
                        (Some (timedelta_minutes ACCESS_TOKEN_EXPIRE_MINUTES)),
                    token_type = ''bearer'',
                    LoginResponse_role = User_role user,
                    LoginResponse_username = User_username user,
                    LoginResponse_points = User_points user\<rparr>)"

definition get_challenges :: "DB \<Rightarrow> ChallengeOut list" where
  "get_challenges db =
     map (\<lambda>c. \<lparr>ChallengeOut_id = Challenge_id c, ChallengeOut_title = Challenge_title c,
               ChallengeOut_description = Challenge_description c,
               ChallengeOut_points = Challenge_points c\<rparr>) (challenges db)"

definition create_challenge :: "DB \<Rightarrow> ChallengeCreate \<Rightarrow> User \<Rightarrow> DB \<times> (HTTPException + Msg)" where
  "create_challenge db ch current_user =
     (if User_role current_user \<noteq> ''admin''
      then (db, Inl (HTTPException 403 ''Only admin can create challenges''))
      else (let challenge =
                  \<lparr>Challenge_id = next_id (map Challenge_id (challenges db)),
                   Challenge_title = ChallengeCreate_title ch,
                   Challenge_description = ChallengeCreate_description ch,
                   Challenge_points = ChallengeCreate_points ch\<rparr>
            in (case commit db (db\<lparr>challenges := challenges db @ [challenge]\<rparr>)
                       [ChallengeCreate_points ch] of
                  None \<Rightarrow> (db, Inl server_error)
                | Some db' \<Rightarrow> (db', Inr (Msg ''Challenge created'')))))"

text \<open>
  \<open>current_user.points += challenge.points\<close> followed by the commit writes the new
  value to the row of the current user, the row with its primary key.
\<close>

definition set_points :: "int \<Rightarrow> int \<Rightarrow> User list \<Rightarrow> User list" where
  "set_points uid p us = map (\<lambda>u. if User_id u = uid then u\<lparr>User_points := p\<rparr> else u) us"

text \<open>
  The lookup of the challenge binds the requested id, and the commit binds the new points;
  either raises when its integer does not fit.
\<close>

definition submit :: "DB \<Rightarrow> SubmissionCreate \<Rightarrow> User \<Rightarrow> DB \<times> (HTTPException + Msg)" where
  "submit db sb current_user =
     (if \<not> in_int64 (SubmissionCreate_challenge_id sb) then (db, Inl server_error)
      else
       (case find (\<lambda>c. Challenge_id c = SubmissionCreate_challenge_id sb) (challenges db) of
          None \<Rightarrow> (db, Inl (HTTPException 404 ''Challenge not found''))
        | Some challenge \<Rightarrow>
            (let submission =
                   \<lparr>Submission_id = next_id (map Submission_id (submissions db)),
                    Submission_proof_text = SubmissionCreate_proof_text sb,
                    Submission_status = ''completed'',
                    Submission_user_id = User_id current_user,
                    Submission_challenge_id = SubmissionCreate_challenge_id sb\<rparr>;
                 points = User_points current_user + Challenge_points challenge
             in (case commit db
                        (db\<lparr>users := set_points (User_id current_user) points (users db),
                            submissions := submissions db @ [submission]\<rparr>)
                        [points] of
                   None \<Rightarrow> (db, Inl server_error)
                 | Some db' \<Rightarrow>
                     (db', Inr (Msg (''Challenge completed! ''
                                     @ str_int (Challenge_points challenge)
                                     @ '' points added.'')))))))"

text \<open>
  \<open>order_by(User.points.desc())\<close>: the rows by descending points. The store leaves the
  order of rows with equal points open; the model keeps them in table order.
\<close>

definition leaderboard :: "DB \<Rightarrow> LeaderboardEntry list" where
  "leaderboard db =
     map (\<lambda>u. \<lparr>LeaderboardEntry_username = User_username u,
               LeaderboardEntry_points = User_points u,
               LeaderboardEntry_role = User_role u\<rparr>)
         (sort_key (\<lambda>u. - User_points u) (users db))"

subsection \<open>Protected routes with their dependency\<close>

text \<open>
  The framework resolves \<open>Depends(get_current_user)\<close> before it calls the handler; an
  exception of the guard ends the request with the state untouched.
\<close>

definition create_challenge_route ::
    "libs \<Rightarrow> int \<Rightarrow> DB \<Rightarrow> string \<Rightarrow> ChallengeCreate \<Rightarrow> DB \<times> (HTTPException + Msg)" where
  "create_challenge_route L now db authorization ch =
     (case get_current_user L now db authorization of
        Inl e \<Rightarrow> (db, Inl e)
      | Inr current_user \<Rightarrow> create_challenge db ch current_user)"

definition submit_route ::
    "libs \<Rightarrow> int \<Rightarrow> DB \<Rightarrow> string \<Rightarrow> SubmissionCreate \<Rightarrow> DB \<times> (HTTPException + Msg)" where
  "submit_route L now db authorization sb =
     (case get_current_user L now db authorization of
        Inl e \<Rightarrow> (db, Inl e)
      | Inr current_user \<Rightarrow> submit db sb current_user)"

subsection \<open>The application: requests and reachable states\<close>

text \<open>
  One request to the service, or a restart of the process (which runs \<open>seed_admin\<close>
  again on the stored tables). The string of a protected request is its
  \<open>Authorization\<close> header; the string of \<open>Restart\<close> and \<open>Register\<close> is the salt drawn.
\<close>

datatype request =
    Restart string
  | Register string RegisterRequest
  | Login LoginRequest
  | GetChallenges
  | CreateChallenge string ChallengeCreate
  | Submit string SubmissionCreate
  | Leaderboard

text \<open>The stored state after a request; the three read-only routes leave it as it is.\<close>

definition handle :: "libs \<Rightarrow> int \<Rightarrow> DB \<Rightarrow> request \<Rightarrow> DB" where
  "handle L now db r =
     (case r of
        Restart salt \<Rightarrow> seed_admin L salt db
      | Register salt req \<Rightarrow> fst (register L salt db req)
      | Login req \<Rightarrow> db
      | GetChallenges \<Rightarrow> db
      | CreateChallenge authorization ch \<Rightarrow> fst (create_challenge_route L now db authorization ch)
      | Submit authorization sb \<Rightarrow> fst (submit_route L now db authorization sb)
      | Leaderboard \<Rightarrow> db)"

text \<open>
  The states the service can be in: the first start seeds the admin into empty tables,
  and every request is served from a reachable state, one at a time.
\<close>

inductive reachable :: "DB \<Rightarrow> bool" where
  startup: "reachable (seed_admin L salt empty_db)"
| request: "reachable db \<Longrightarrow> reachable (handle L now db r)"

subsection \<open>Observations on a state\<close>

text \<open>The points of the user with a given id, if there is one.\<close>

definition user_points :: "DB \<Rightarrow> int \<Rightarrow> int option" where
  "user_points db uid = map_option User_points (find (\<lambda>u. User_id u = uid) (users db))"

text \<open>The submissions that link a user and a challenge.\<close>

definition links :: "DB \<Rightarrow> int \<Rightarrow> int \<Rightarrow> Submission list" where
  "links db uid cid =
     filter (\<lambda>s. Submission_user_id s = uid \<and> Submission_challenge_id s = cid) (submissions db)"

text \<open>The reward of the challenge with a given id (0 if there is none).\<close>

definition reward :: "DB \<Rightarrow> int \<Rightarrow> int" where
  "reward db cid =
     (case find (\<lambda>c. Challenge_id c = cid) (challenges db) of
        None \<Rightarrow> 0
      | Some c \<Rightarrow> Challenge_points c)"

text \<open>
  Two readings of "the points a user has earned". The first follows the wording of the
  specification: the sum of the points of all challenges for which the user has a
  submission, each challenge counted once. The second counts every submission row.
\<close>

definition points_of_submitted_challenges :: "DB \<Rightarrow> int \<Rightarrow> int" where
  "points_of_submitted_challenges db uid =
     sum_list (map Challenge_points
       (filter (\<lambda>c. links db uid (Challenge_id c) \<noteq> []) (challenges db)))"

definition points_of_submissions :: "DB \<Rightarrow> int \<Rightarrow> int" where
  "points_of_submissions db uid =
     sum_list (map (\<lambda>s. reward db (Submission_challenge_id s))
       (filter (\<lambda>s. Submission_user_id s = uid) (submissions db)))"

subsection \<open>A test double of the libraries and sample states\<close>

text \<open>
  Concrete runs need concrete libraries. The double hashes a password by appending the
  salt and accepts a password that the stored hash starts with; its tokens are
  \<open>tok-\<close> followed by the subject, valid until second 3600 and then expired, and every
  other string is rejected as malformed.
\<close>

definition test_libs :: libs where
  "test_libs =
     \<lparr>pwd_hash = (\<lambda>salt password. password @ salt),
      pwd_verify = (\<lambda>password hashed. take (length password) hashed = password),
      jwt_encode = (\<lambda>payload key algorithm.
                      ''tok-'' @ (case sub payload of None \<Rightarrow> [] | Some s \<Rightarrow> s)),
      jwt_decode = (\<lambda>token key algorithms now.
                      if take 4 token = ''tok-''
                      then (if 3600 < now then Inl ExpiredSignatureError
                            else Inr \<lparr>sub = Some (drop 4 token), exp = Some 3600\<rparr>)
                      else Inl JWTError)\<rparr>"

text \<open>The state after the first start.\<close>

definition db_seeded :: DB where
  "db_seeded = seed_admin test_libs ''salt'' empty_db"

text \<open>The admin has created a challenge worth 10 points.\<close>

definition db_recycle :: DB where
  "db_recycle =
     handle test_libs 0 db_seeded
       (CreateChallenge ''Bearer tok-admin''
          \<lparr>ChallengeCreate_title = ''Recycle'',
           ChallengeCreate_description = ''Recycle 1kg'',
           ChallengeCreate_points = 10\<rparr>)"

text \<open>A submission to the challenge with id 1.\<close>

definition photo :: SubmissionCreate where
  "photo = \<lparr>SubmissionCreate_challenge_id = 1, SubmissionCreate_proof_text = ''photo''\<rparr>"

text \<open>The admin has submitted to that challenge once, and twice.\<close>

definition db_once :: DB where
  "db_once = handle test_libs 0 db_recycle (Submit ''Bearer tok-admin'' photo)"

definition db_twice :: DB where
  "db_twice = handle test_libs 0 db_once (Submit ''Bearer tok-admin'' photo)"

text \<open>The admin has created a challenge with a negative point value.\<close>

definition db_penalty :: DB where
  "db_penalty =
     handle test_libs 0 db_seeded
       (CreateChallenge ''Bearer tok-admin''
          \<lparr>ChallengeCreate_title = ''Litter'',
           ChallengeCreate_description = ''Drop litter'',
           ChallengeCreate_points = - 5\<rparr>)"

text \<open>
  The admin has created a challenge worth the largest integer the store keeps, and has
  submitted to it once.
\<close>

definition db_max :: DB where
  "db_max =
     handle test_libs 0 db_seeded
       (CreateChallenge ''Bearer tok-admin''
          \<lparr>ChallengeCreate_title = ''Everything'',
           ChallengeCreate_description = ''Do it all'',
           ChallengeCreate_points = 9223372036854775807\<rparr>)"

definition db_max_once :: DB where
  "db_max_once = handle test_libs 0 db_max (Submit ''Bearer tok-admin'' photo)"

text \<open>The rows that these runs store for the admin and for the challenge.\<close>

definition admin_row :: User where
  "admin_row =
     \<lparr>User_id = 1, User_username = ''admin'', User_hashed_password = ''admin123salt'',
      User_role = ''admin'', User_points = 0\<rparr>"

definition max_row :: Challenge where
  "max_row =
     \<lparr>Challenge_id = 1, Challenge_title = ''Everything'',
      Challenge_description = ''Do it all'', Challenge_points = 9223372036854775807\<rparr>"

definition recycle_row :: Challenge where
  "recycle_row =
     \<lparr>Challenge_id = 1, Challenge_title = ''Recycle'',
      Challenge_description = ''Recycle 1kg'', Challenge_points = 10\<rparr>"

text \<open>Sample requests: a new user, a second registration of the admin's name, a login.\<close>

definition alice :: RegisterRequest where
  "alice = \<lparr>RegisterRequest_username = ''alice'', RegisterRequest_password = ''pw1''\<rparr>"

definition admin_again :: RegisterRequest where
  "admin_again = \<lparr>RegisterRequest_username = ''admin'', RegisterRequest_password = ''letmein''\<rparr>"

definition admin_login :: LoginRequest where
  "admin_login = \<lparr>LoginRequest_username = ''admin'', LoginRequest_password = ''admin123''\<rparr>"

text \<open>The same protected submission sent \<open>n\<close> times in a row.\<close>

fun resubmit :: "libs \<Rightarrow> int \<Rightarrow> string \<Rightarrow> SubmissionCreate \<Rightarrow> nat \<Rightarrow> DB \<Rightarrow> DB" where
  "resubmit L now authorization sb 0 db = db"
| "resubmit L now authorization sb (Suc n) db =
     resubmit L now authorization sb n (handle L now db (Submit authorization sb))"

subsection \<open>The consistency of the tables\<close>

text \<open>
  Primary keys and usernames are unique, every submission refers to a stored user and a
  stored challenge, the points of every user are the rewards of their submissions, and
  the stored points fit the store's integers.
\<close>

definition consistent :: "DB \<Rightarrow> bool" where
  "consistent db \<longleftrightarrow>
     distinct (map User_id (users db))
     \<and> distinct (map User_username (users db))
     \<and> (\<forall>s \<in> set (submissions db).
          Submission_user_id s \<in> User_id ` set (users db)
          \<and> Submission_challenge_id s \<in> Challenge_id ` set (challenges db))
     \<and> (\<forall>u \<in> set (users db). User_points u = points_of_submissions db (User_id u))
     \<and> (\<forall>u \<in> set (users db). in_int64 (User_points u))"

section \<open>Auxiliary facts\<close>

declare str_nat.simps [simp del]

subsection \<open>Keys, lookups and the guard\<close>

lemma next_id_fresh: "i \<in> set ids \<Longrightarrow> i < next_id ids"
proof -
  assume a: "i \<in> set ids"
  then have "ids \<noteq> []" by auto
  moreover have "i \<le> Max (set ids)" using a by simp
  ultimately show ?thesis by (simp add: next_id_def)
qed

lemma next_id_notin: "next_id ids \<notin> set ids"
  using next_id_fresh [of "next_id ids" ids] by auto

lemma find_in_set: "find P xs = Some x \<Longrightarrow> x \<in> set xs \<and> P x"
  by (induction xs) (auto split: if_splits)

lemma find_append:
  "find P (xs @ ys) = (case find P xs of None \<Rightarrow> find P ys | Some x \<Rightarrow> Some x)"
  by (induction xs) auto

lemma guard_user_in_db:
  "get_current_user L now db authorization = Inr u \<Longrightarrow> u \<in> set (users db)"
  unfolding get_current_user_def
  by (auto split: if_splits list.splits sum.splits option.splits dest: find_in_set)

lemma sorted_desc:
  "sorted_wrt (\<ge>) (map User_points (sort_key (\<lambda>u. - User_points u) us))"
proof -
  have "sorted (map (\<lambda>u. - User_points u) (sort_key (\<lambda>u. - User_points u) us))"
    by (rule sorted_sort_key)
  then show ?thesis
    by (simp add: sorted_wrt_map)
qed

lemma set_points_ids: "map User_id (set_points uid p us) = map User_id us"
  by (induction us) (auto simp: set_points_def)

lemma find_set_points_same:
  "find (\<lambda>u. User_id u = uid) us = Some u \<Longrightarrow>
   find (\<lambda>u. User_id u = uid) (set_points uid p us) = Some (u\<lparr>User_points := p\<rparr>)"
  by (induction us) (auto simp: set_points_def)

lemma find_set_points_other:
  "uid' \<noteq> uid \<Longrightarrow>
   find (\<lambda>u. User_id u = uid') (set_points uid p us) = find (\<lambda>u. User_id u = uid') us"
  by (induction us) (auto simp: set_points_def)

lemma find_by_id_distinct:
  "distinct (map User_id us) \<Longrightarrow> u \<in> set us \<Longrightarrow> find (\<lambda>v. User_id v = User_id u) us = Some u"
  by (induction us) (auto simp: rev_image_eqI)

lemma find_None_notin: "find P xs = None \<Longrightarrow> x \<in> set xs \<Longrightarrow> \<not> P x"
  by (induction xs) (auto split: if_splits)

lemma find_Some_ex: "x \<in> set xs \<Longrightarrow> P x \<Longrightarrow> \<exists>y. find P xs = Some y"
  by (induction xs) auto

lemma find_map_pres:
  "find P us = Some u \<Longrightarrow> (\<And>v. P (f v) = P v) \<Longrightarrow> find P (map f us) = Some (f u)"
  by (induction us) (auto split: if_splits)

subsection \<open>The outcomes of a submission\<close>

lemma in_int64_0: "in_int64 0"
  by (simp add: in_int64_def)

lemma submit_ok:
  assumes "in_int64 (SubmissionCreate_challenge_id sb)"
      and "find (\<lambda>c. Challenge_id c = SubmissionCreate_challenge_id sb) (challenges db) = Some C"
      and "in_int64 (User_points U + Challenge_points C)"
  shows "submit db sb U =
           (db\<lparr>users := set_points (User_id U) (User_points U + Challenge_points C) (users db),
               submissions := submissions db @
                 [\<lparr>Submission_id = next_id (map Submission_id (submissions db)),
                   Submission_proof_text = SubmissionCreate_proof_text sb,
                   Submission_status = ''completed'',
                   Submission_user_id = User_id U,
                   Submission_challenge_id = SubmissionCreate_challenge_id sb\<rparr>]\<rparr>,
            Inr (Msg (''Challenge completed! '' @ str_int (Challenge_points C)
                      @ '' points added.'')))"
  using assms by (simp add: submit_def commit_def Let_def)

lemma submit_cases:
  obtains (fail) e where "submit db sb U = (db, Inl e)"
  | (ok) C where
      "in_int64 (SubmissionCreate_challenge_id sb)"
      "find (\<lambda>c. Challenge_id c = SubmissionCreate_challenge_id sb) (challenges db) = Some C"
      "in_int64 (User_points U + Challenge_points C)"
proof (cases "in_int64 (SubmissionCreate_challenge_id sb)")
  case False
  then have "submit db sb U = (db, Inl server_error)" by (simp add: submit_def)
  then show ?thesis by (rule fail)
next
  case r: True
  show ?thesis
  proof (cases "find (\<lambda>c. Challenge_id c = SubmissionCreate_challenge_id sb) (challenges db)")
    case None
    then have "submit db sb U = (db, Inl (HTTPException 404 ''Challenge not found''))"
      using r by (simp add: submit_def)
    then show ?thesis by (rule fail)
  next
    case (Some C)
    show ?thesis
    proof (cases "in_int64 (User_points U + Challenge_points C)")
      case True
      with r Some show ?thesis by (rule ok)
    next
      case False
      then have "submit db sb U = (db, Inl server_error)"
        using r Some by (simp add: submit_def commit_def Let_def)
      then show ?thesis by (rule fail)
    qed
  qed
qed

lemma create_challenge_cases:
  obtains (fail) e where "create_challenge db ch U = (db, Inl e)"
  | (ok) "in_int64 (ChallengeCreate_points ch)"
      "create_challenge db ch U =
         (db\<lparr>challenges := challenges db @
              [\<lparr>Challenge_id = next_id (map Challenge_id (challenges db)),
                Challenge_title = ChallengeCreate_title ch,
                Challenge_description = ChallengeCreate_description ch,
                Challenge_points = ChallengeCreate_points ch\<rparr>]\<rparr>,
          Inr (Msg ''Challenge created''))"
proof (cases "User_role U \<noteq> ''admin''")
  case True
  then have "create_challenge db ch U
               = (db, Inl (HTTPException 403 ''Only admin can create challenges''))"
    by (simp add: create_challenge_def)
  then show ?thesis by (rule fail)
next
  case adm: False
  show ?thesis
  proof (cases "in_int64 (ChallengeCreate_points ch)")
    case True
    then show ?thesis
      using adm by (intro ok) (simp_all add: create_challenge_def commit_def Let_def)
  next
    case False
    then have "create_challenge db ch U = (db, Inl server_error)"
      using adm by (simp add: create_challenge_def commit_def Let_def)
    then show ?thesis by (rule fail)
  qed
qed

subsection \<open>Every reachable state is consistent\<close>

lemma consistent_empty: "consistent empty_db"
  by (simp add: consistent_def empty_db_def)

lemma points_of_submissions_cong:
  "submissions db' = submissions db \<Longrightarrow> challenges db' = challenges db \<Longrightarrow>
   points_of_submissions db' uid = points_of_submissions db uid"
  by (simp add: points_of_submissions_def reward_def)

lemma no_submissions_no_points:
  "\<forall>s \<in> set (submissions db). Submission_user_id s \<noteq> uid \<Longrightarrow> points_of_submissions db uid = 0"
proof -
  assume "\<forall>s \<in> set (submissions db). Submission_user_id s \<noteq> uid"
  then have "filter (\<lambda>s. Submission_user_id s = uid) (submissions db) = []"
    by (simp add: filter_empty_conv)
  then show ?thesis by (simp add: points_of_submissions_def)
qed

lemma consistent_add_user:
  assumes c: "consistent db"
      and free: "find (\<lambda>u. User_username u = name) (users db) = None"
  shows "consistent (add_user db name hashed r 0)"
proof -
  let ?n = "next_id (map User_id (users db))"
  let ?new = "\<lparr>User_id = ?n, User_username = name, User_hashed_password = hashed,
               User_role = r, User_points = 0\<rparr>"
  let ?db = "add_user db name hashed r 0"
  have fresh: "?n \<notin> User_id ` set (users db)"
    using next_id_notin [of "map User_id (users db)"] by simp
  have name: "name \<notin> User_username ` set (users db)"
    using find_None_notin [OF free] by auto
  have us: "users ?db = users db @ [?new]"
    and sub: "submissions ?db = submissions db"
    and chs: "challenges ?db = challenges db"
    by (simp_all add: add_user_def)
  have same: "points_of_submissions ?db uid = points_of_submissions db uid" for uid
    using sub chs by (rule points_of_submissions_cong)
  have refs: "\<forall>s \<in> set (submissions db).
          Submission_user_id s \<in> User_id ` set (users db)
          \<and> Submission_challenge_id s \<in> Challenge_id ` set (challenges db)"
    using c by (simp add: consistent_def)
  then have "\<forall>s \<in> set (submissions db). Submission_user_id s \<noteq> ?n"
    using fresh by metis
  then have zero: "points_of_submissions db ?n = 0"
    by (rule no_submissions_no_points)
  have pts: "\<forall>u \<in> set (users db). User_points u = points_of_submissions db (User_id u)"
    using c by (simp add: consistent_def)
  have "distinct (map User_id (users ?db))"
    using c fresh by (simp add: consistent_def us)
  moreover have "distinct (map User_username (users ?db))"
    using c name by (simp add: consistent_def us)
  moreover have "\<forall>s \<in> set (submissions ?db).
          Submission_user_id s \<in> User_id ` set (users ?db)
          \<and> Submission_challenge_id s \<in> Challenge_id ` set (challenges ?db)"
    using refs by (simp add: us sub chs)
  moreover have "\<forall>u \<in> set (users ?db). User_points u = points_of_submissions ?db (User_id u)"
    using pts zero by (simp add: us same)
  moreover have "\<forall>u \<in> set (users ?db). in_int64 (User_points u)"
  proof -
    have "\<forall>u \<in> set (users db). in_int64 (User_points u)"
      using c unfolding consistent_def by blast
    then show ?thesis by (simp add: us in_int64_0)
  qed
  ultimately show ?thesis by (simp add: consistent_def)
qed

lemma consistent_seed_admin: "consistent db \<Longrightarrow> consistent (seed_admin L salt db)"
  by (auto simp: seed_admin_def consistent_add_user split: option.splits)

lemma consistent_register: "consistent db \<Longrightarrow> consistent (fst (register L salt db req))"
  by (auto simp: register_def consistent_add_user split: option.splits)

lemma reward_append:
  "cid \<in> Challenge_id ` set (challenges db) \<Longrightarrow>
   reward (db\<lparr>challenges := challenges db @ cs\<rparr>) cid = reward db cid"
proof -
  assume "cid \<in> Challenge_id ` set (challenges db)"
  then obtain c where "c \<in> set (challenges db)" "Challenge_id c = cid" by auto
  then obtain y where "find (\<lambda>c. Challenge_id c = cid) (challenges db) = Some y"
    using find_Some_ex [of c "challenges db" "\<lambda>c. Challenge_id c = cid"] by auto
  then show ?thesis by (simp add: reward_def find_append)
qed

lemma consistent_create_challenge:
  assumes c: "consistent db"
  shows "consistent (fst (create_challenge db ch current_user))"
proof (cases rule: create_challenge_cases [of db ch current_user])
  case (fail e)
  then show ?thesis using c by simp
next
  case ok
  let ?cs = "[\<lparr>Challenge_id = next_id (map Challenge_id (challenges db)),
                  Challenge_title = ChallengeCreate_title ch,
                  Challenge_description = ChallengeCreate_description ch,
                  Challenge_points = ChallengeCreate_points ch\<rparr>]"
  let ?db = "db\<lparr>challenges := challenges db @ ?cs\<rparr>"
  have eq: "fst (create_challenge db ch current_user) = ?db"
    using ok(2) by simp
  have refs: "\<forall>s \<in> set (submissions db). Submission_challenge_id s \<in> Challenge_id ` set (challenges db)"
    using c by (simp add: consistent_def)
  have same: "points_of_submissions ?db uid = points_of_submissions db uid" for uid
  proof -
    let ?ss = "filter (\<lambda>s. Submission_user_id s = uid) (submissions db)"
    have m: "map (\<lambda>s. reward ?db (Submission_challenge_id s)) ?ss
          = map (\<lambda>s. reward db (Submission_challenge_id s)) ?ss"
      using refs by (intro map_cong refl) (simp add: reward_append)
    have "points_of_submissions ?db uid
          = sum_list (map (\<lambda>s. reward ?db (Submission_challenge_id s)) ?ss)"
      by (simp add: points_of_submissions_def)
    also have "\<dots> = sum_list (map (\<lambda>s. reward db (Submission_challenge_id s)) ?ss)"
      by (simp only: m)
    also have "\<dots> = points_of_submissions db uid"
      by (simp add: points_of_submissions_def)
    finally show ?thesis .
  qed
  have "consistent ?db"
    using c by (auto simp: consistent_def same)
  then show ?thesis by (simp only: eq)
qed

lemma set_points_usernames: "map User_username (set_points uid p us) = map User_username us"
  by (induction us) (auto simp: set_points_def)

lemma set_points_id_image: "User_id ` set (set_points uid p us) = User_id ` set us"
  using set_points_ids [of uid p us] by (metis set_map)

lemma same_id_same_row:
  "distinct (map User_id us) \<Longrightarrow> u \<in> set us \<Longrightarrow> v \<in> set us \<Longrightarrow> User_id u = User_id v \<Longrightarrow> u = v"
  by (meson distinct_map inj_onD)

lemma consistent_submit:
  assumes c: "consistent db" and cu: "current_user \<in> set (users db)"
  shows "consistent (fst (submit db sb current_user))"
proof (cases rule: submit_cases [of db sb current_user])
  case (fail e)
  then show ?thesis using c by simp
next
  case (ok ch)
  let ?uid = "User_id current_user"
  let ?cid = "SubmissionCreate_challenge_id sb"
  let ?p = "User_points current_user + Challenge_points ch"
  let ?s = "\<lparr>Submission_id = next_id (map Submission_id (submissions db)),
                  Submission_proof_text = SubmissionCreate_proof_text sb,
                  Submission_status = ''completed'',
                  Submission_user_id = ?uid,
                  Submission_challenge_id = ?cid\<rparr>"
  let ?db = "db\<lparr>users := set_points ?uid ?p (users db), submissions := submissions db @ [?s]\<rparr>"
  have eq: "fst (submit db sb current_user) = ?db"
    using submit_ok [OF ok] by simp
  have chin: "?cid \<in> Challenge_id ` set (challenges db)"
    using find_in_set [OF ok(2)] by force
  have rw: "reward db ?cid = Challenge_points ch"
    using ok(2) by (simp add: reward_def)
  have pos: "points_of_submissions (db\<lparr>users := us, submissions := submissions db @ [?s]\<rparr>) uid
             = points_of_submissions db uid + (if uid = ?uid then Challenge_points ch else 0)"
    for uid us
    using rw by (simp add: points_of_submissions_def reward_def)
  have d: "distinct (map User_id (users db))" using c by (simp add: consistent_def)
  have refs: "\<forall>s \<in> set (submissions db).
          Submission_user_id s \<in> User_id ` set (users db)
          \<and> Submission_challenge_id s \<in> Challenge_id ` set (challenges db)"
    using c by (simp add: consistent_def)
  have pts: "\<forall>u \<in> set (users db). User_points u = points_of_submissions db (User_id u)"
    using c by (simp add: consistent_def)
  have fits: "\<forall>u \<in> set (users db). in_int64 (User_points u)"
    using c unfolding consistent_def by blast
  have "distinct (map User_id (users ?db))"
    using c by (simp add: consistent_def set_points_ids)
  moreover have "distinct (map User_username (users ?db))"
    using c by (simp add: consistent_def set_points_usernames)
  moreover have "\<forall>s \<in> set (submissions ?db).
          Submission_user_id s \<in> User_id ` set (users ?db)
          \<and> Submission_challenge_id s \<in> Challenge_id ` set (challenges ?db)"
    using refs cu chin by (simp add: set_points_id_image)
  moreover have "\<forall>u \<in> set (users ?db). User_points u = points_of_submissions ?db (User_id u)"
  proof
    fix u' assume "u' \<in> set (users ?db)"
    then obtain u where u: "u \<in> set (users db)"
      and u': "u' = (if User_id u = ?uid then u\<lparr>User_points := ?p\<rparr> else u)"
      by (auto simp: set_points_def)
    show "User_points u' = points_of_submissions ?db (User_id u')"
    proof (cases "User_id u = ?uid")
      case True
      then have "u = current_user" using d u cu by (rule_tac same_id_same_row)
      then show ?thesis using u' pts cu by (simp add: pos)
    next
      case False
      then show ?thesis using u' pts u by (simp add: pos)
    qed
  qed
  moreover have "\<forall>u \<in> set (users ?db). in_int64 (User_points u)"
    using fits ok(3) by (auto simp: set_points_def)
  ultimately have "consistent ?db" by (simp add: consistent_def)
  then show ?thesis by (simp only: eq)
qed

lemma consistent_handle: "consistent db \<Longrightarrow> consistent (handle L now db r)"
  by (cases r)
     (auto simp: handle_def consistent_seed_admin consistent_register
        create_challenge_route_def submit_route_def consistent_create_challenge
        consistent_submit guard_user_in_db split: sum.splits)

lemma reachable_consistent: "reachable db \<Longrightarrow> consistent db"
  by (induction rule: reachable.induct)
     (simp_all add: consistent_seed_admin consistent_empty consistent_handle)

subsection \<open>Points of a user across one request\<close>

lemma user_points_add_user:
  "user_points db uid = Some p \<Longrightarrow> user_points (add_user db name hashed r q) uid = Some p"
  by (auto simp: user_points_def add_user_def find_append split: option.splits)

lemma user_points_seed_admin:
  "user_points db uid = Some p \<Longrightarrow> user_points (seed_admin L salt db) uid = Some p"
  by (simp add: seed_admin_def user_points_add_user split: option.splits)

lemma user_points_register:
  "user_points db uid = Some p \<Longrightarrow> user_points (fst (register L salt db req)) uid = Some p"
  by (simp add: register_def user_points_add_user split: option.splits)

lemma user_points_create_challenge:
  "user_points (fst (create_challenge_route L now db authorization ch)) uid = user_points db uid"
proof (cases "get_current_user L now db authorization")
  case (Inl e)
  then show ?thesis by (simp add: create_challenge_route_def)
next
  case (Inr U)
  have "user_points (fst (create_challenge db ch U)) uid = user_points db uid"
    by (cases rule: create_challenge_cases [of db ch U]) (simp_all add: user_points_def)
  then show ?thesis using Inr by (simp add: create_challenge_route_def)
qed

lemma user_points_submit:
  assumes key: "distinct (map User_id (users db))"
      and cu: "current_user \<in> set (users db)"
      and nonneg: "0 \<le> reward db (SubmissionCreate_challenge_id sb)"
      and p: "user_points db uid = Some p"
  shows "\<exists>p'. user_points (fst (submit db sb current_user)) uid = Some p' \<and> p \<le> p'"
proof (cases rule: submit_cases [of db sb current_user])
  case (fail e)
  then show ?thesis using p by simp
next
  case (ok ch)
  have rw: "0 \<le> Challenge_points ch" using nonneg ok(2) by (simp add: reward_def)
  have f: "find (\<lambda>v. User_id v = User_id current_user) (users db) = Some current_user"
    using key cu by (rule find_by_id_distinct)
  show ?thesis
  proof (cases "uid = User_id current_user")
    case True
    then have "p = User_points current_user" using p f by (simp add: user_points_def)
    then show ?thesis
      using True f rw
      by (simp add: submit_ok [OF ok] user_points_def find_set_points_same)
  next
    case False
    then show ?thesis
      using p
      by (auto simp: submit_ok [OF ok] user_points_def find_set_points_other)
  qed
qed

subsection \<open>Repeated submissions\<close>

lemma in_int64_between:
  assumes a: "in_int64 a" and b: "in_int64 (a + int n * P)" and i: "i \<le> n"
  shows "in_int64 (a + int i * P)"
proof (cases "0 \<le> P")
  case True
  have "int i * P \<le> int n * P" using i True by (simp add: mult_right_mono)
  moreover have "0 \<le> int i * P" using True by simp
  ultimately show ?thesis using a b by (simp add: in_int64_def)
next
  case False
  then have neg: "P \<le> 0" by simp
  have "int n * P \<le> int i * P" using i neg by (simp add: mult_right_mono_neg)
  moreover have "int i * P \<le> 0" using neg by (simp add: mult_nonneg_nonpos)
  ultimately show ?thesis using a b by (simp add: in_int64_def)
qed

lemma guard_after_submit:
  assumes auth: "get_current_user L now db authorization = Inr U"
      and rng: "in_int64 (SubmissionCreate_challenge_id sb)"
      and ch: "find (\<lambda>c. Challenge_id c = SubmissionCreate_challenge_id sb) (challenges db) = Some C"
      and fits: "in_int64 (User_points U + Challenge_points C)"
  shows "get_current_user L now (fst (submit db sb U)) authorization
           = Inr (U\<lparr>User_points := User_points U + Challenge_points C\<rparr>)"
proof -
  let ?uid = "User_id U" and ?p = "User_points U + Challenge_points C"
  obtain b token rest where sp: "split_sep CHR '' '' authorization = b # token # rest"
    using auth by (auto simp: get_current_user_def split: if_splits list.splits)
  obtain payload where dec: "jwt_decode L token SECRET_KEY [ALGORITHM] now = Inr payload"
    using auth sp by (auto simp: get_current_user_def split: if_splits sum.splits)
  obtain name where nm: "sub payload = Some name" "name \<noteq> []"
    and f: "find (\<lambda>u. User_username u = name) (users db) = Some U"
    using auth sp dec
    by (auto simp: get_current_user_def split: if_splits option.splits)
  have "find (\<lambda>u. User_username u = name) (set_points ?uid ?p (users db))
        = Some (if User_id U = ?uid then U\<lparr>User_points := ?p\<rparr> else U)"
    unfolding set_points_def using f by (rule find_map_pres) simp
  then have f': "find (\<lambda>u. User_username u = name) (users (fst (submit db sb U)))
        = Some (U\<lparr>User_points := ?p\<rparr>)"
    by (simp add: submit_ok [OF rng ch fits])
  have st: "startswith authorization ''Bearer ''"
    using auth by (auto simp: get_current_user_def split: if_splits)
  show ?thesis
    using st sp dec nm f' by (simp add: get_current_user_def)
qed

lemma links_after_submit:
  assumes rng: "in_int64 (SubmissionCreate_challenge_id sb)"
      and ch: "find (\<lambda>c. Challenge_id c = SubmissionCreate_challenge_id sb) (challenges db) = Some C"
      and fits: "in_int64 (User_points U + Challenge_points C)"
  shows "length (links (fst (submit db sb U)) (User_id U) (Challenge_id C))
           = length (links db (User_id U) (Challenge_id C)) + 1"
  using find_in_set [OF ch] by (simp add: submit_ok [OF rng ch fits] links_def)

lemma resubmit_grows:
  assumes auth: "get_current_user L now db authorization = Inr U"
      and key: "distinct (map User_id (users db))"
      and rng: "in_int64 (SubmissionCreate_challenge_id sb)"
      and ch: "find (\<lambda>c. Challenge_id c = SubmissionCreate_challenge_id sb) (challenges db) = Some C"
      and steps: "\<And>i. 1 \<le> i \<Longrightarrow> i \<le> n \<Longrightarrow> in_int64 (User_points U + int i * Challenge_points C)"
  shows "user_points (resubmit L now authorization sb n db) (User_id U)
           = Some (User_points U + int n * Challenge_points C)
         \<and> length (links (resubmit L now authorization sb n db) (User_id U) (Challenge_id C))
           = length (links db (User_id U) (Challenge_id C)) + n"
  using auth key ch steps
proof (induction n arbitrary: db U)
  case 0
  have U: "U \<in> set (users db)" using "0.prems"(1) by (rule guard_user_in_db)
  have "find (\<lambda>v. User_id v = User_id U) (users db) = Some U"
    using "0.prems"(2) U by (rule find_by_id_distinct)
  then show ?case by (simp add: user_points_def)
next
  case (Suc n)
  let ?db = "fst (submit db sb U)"
  let ?U = "U\<lparr>User_points := User_points U + Challenge_points C\<rparr>"
  have fits: "in_int64 (User_points U + Challenge_points C)"
    using Suc.prems(4) [of 1] by simp
  have step: "handle L now db (Submit authorization sb) = ?db"
    using Suc.prems(1) by (simp add: handle_def submit_route_def)
  have a: "get_current_user L now ?db authorization = Inr ?U"
    using Suc.prems(1) rng Suc.prems(3) fits by (rule guard_after_submit)
  have k: "distinct (map User_id (users ?db))"
    using Suc.prems(2) by (simp add: submit_ok [OF rng Suc.prems(3) fits] set_points_ids)
  have c: "find (\<lambda>c. Challenge_id c = SubmissionCreate_challenge_id sb) (challenges ?db) = Some C"
    using Suc.prems(3) by (simp add: submit_ok [OF rng Suc.prems(3) fits])
  have l: "length (links ?db (User_id U) (Challenge_id C))
           = length (links db (User_id U) (Challenge_id C)) + 1"
    using rng Suc.prems(3) fits by (rule links_after_submit)
  have s: "in_int64 (User_points ?U + int i * Challenge_points C)" if "1 \<le> i" "i \<le> n" for i
    using Suc.prems(4) [of "Suc i"] that by (simp add: algebra_simps)
  show ?case
    using Suc.IH [OF a k c s] l by (simp add: step algebra_simps)
qed

subsection \<open>The sample states\<close>

lemmas run_defs = db_seeded_def db_recycle_def db_once_def db_twice_def db_penalty_def
  admin_row_def recycle_row_def photo_def alice_def admin_again_def admin_login_def
  db_max_def db_max_once_def max_row_def commit_def in_int64_def server_error_def
  handle_def seed_admin_def add_user_def empty_db_def test_libs_def next_id_def
  create_challenge_route_def submit_route_def get_current_user_def startswith_def
  create_challenge_def submit_def set_points_def SECRET_KEY_def ALGORITHM_def
  register_def login_def user_points_def links_def reward_def
  points_of_submitted_challenges_def points_of_submissions_def

lemma db_seeded_eq: "db_seeded = \<lparr>users = [admin_row], challenges = [], submissions = []\<rparr>"
  by (simp add: run_defs)

lemma db_recycle_eq: "db_recycle = \<lparr>users = [admin_row], challenges = [recycle_row], submissions = []\<rparr>"
  by (simp add: run_defs)

lemma reachable_db_seeded: "reachable db_seeded"
  unfolding db_seeded_def by (rule reachable.startup)

lemma reachable_db_recycle: "reachable db_recycle"
  unfolding db_recycle_def by (rule reachable.request [OF reachable_db_seeded])

lemma reachable_db_once: "reachable db_once"
  unfolding db_once_def by (rule reachable.request [OF reachable_db_recycle])

lemma reachable_db_twice: "reachable db_twice"
  unfolding db_twice_def by (rule reachable.request [OF reachable_db_once])

lemma reachable_db_penalty: "reachable db_penalty"
  unfolding db_penalty_def by (rule reachable.request [OF reachable_db_seeded])

lemma reachable_db_max: "reachable db_max"
  unfolding db_max_def by (rule reachable.request [OF reachable_db_seeded])

lemma reachable_db_max_once: "reachable db_max_once"
  unfolding db_max_once_def by (rule reachable.request [OF reachable_db_max])

section \<open>The claims\<close>

text \<open>
  C1. Let the guard authenticate \<open>U\<close> and let \<open>C\<close> be the stored challenge with the
  requested id, in a table with unique user ids. If the submission succeeds, the points
  of \<open>U\<close> are the prior points plus the points of \<open>C\<close>, and the submissions table has
  grown by exactly one row, which refers to \<open>U\<close> and \<open>C\<close> and has the status completed.
  The submission succeeds exactly when the requested id and the new total fit the
  store's integers.
\<close>

theorem submit_adds_points_and_row:
  assumes auth: "get_current_user L now db authorization = Inr U"
      and key: "distinct (map User_id (users db))"
      and ch: "find (\<lambda>c. Challenge_id c = SubmissionCreate_challenge_id sb) (challenges db) = Some C"
  shows "(submit_route L now db authorization sb = (db', Inr m) \<longrightarrow>
            user_points db (User_id U) = Some (User_points U)
            \<and> user_points db' (User_id U) = Some (User_points U + Challenge_points C)
            \<and> (\<exists>s. submissions db' = submissions db @ [s]
                   \<and> Submission_user_id s = User_id U
                   \<and> Submission_challenge_id s = Challenge_id C
                   \<and> Submission_status s = ''completed''))
         \<and> ((\<exists>d r. submit_route L now db authorization sb = (d, Inr r))
              = (in_int64 (SubmissionCreate_challenge_id sb)
                 \<and> in_int64 (User_points U + Challenge_points C)))"
proof -
  have route: "submit_route L now db authorization sb = submit db sb U"
    using auth by (simp add: submit_route_def)
  have U: "U \<in> set (users db)" using auth by (rule guard_user_in_db)
  have f: "find (\<lambda>v. User_id v = User_id U) (users db) = Some U"
    using key U by (rule find_by_id_distinct)
  have cid: "SubmissionCreate_challenge_id sb = Challenge_id C"
    using find_in_set [OF ch] by simp
  show ?thesis
  proof (cases "in_int64 (SubmissionCreate_challenge_id sb)
                \<and> in_int64 (User_points U + Challenge_points C)")
    case True
    then have rng: "in_int64 (SubmissionCreate_challenge_id sb)"
      and fits: "in_int64 (User_points U + Challenge_points C)" by simp_all
    show ?thesis
      using True f cid
      by (auto simp: route submit_ok [OF rng ch fits] user_points_def find_set_points_same)
  next
    case False
    then have "submit db sb U = (db, Inl server_error)"
      using ch by (auto simp: submit_def commit_def Let_def)
    then show ?thesis using False by (simp add: route)
  qed
qed

theorem submit_adds_points_and_row_witness:
  "get_current_user test_libs 0 db_recycle ''Bearer tok-admin'' = Inr admin_row
   \<and> distinct (map User_id (users db_recycle))
   \<and> find (\<lambda>c. Challenge_id c = SubmissionCreate_challenge_id photo) (challenges db_recycle)
       = Some recycle_row
   \<and> submit_route test_libs 0 db_recycle ''Bearer tok-admin'' photo
       = (db_once, Inr (Msg (''Challenge completed! '' @ str_int 10 @ '' points added.'')))
   \<and> user_points db_recycle (User_id admin_row) = Some (User_points admin_row)
   \<and> user_points db_once (User_id admin_row)
       = Some (User_points admin_row + Challenge_points recycle_row)
   \<and> (\<exists>s. submissions db_once = submissions db_recycle @ [s]
          \<and> Submission_user_id s = User_id admin_row
          \<and> Submission_challenge_id s = Challenge_id recycle_row
          \<and> Submission_status s = ''completed'')
   \<and> in_int64 (SubmissionCreate_challenge_id photo)
   \<and> in_int64 (User_points admin_row + Challenge_points recycle_row)"
proof -
  have h1: "get_current_user test_libs 0 db_recycle ''Bearer tok-admin'' = Inr admin_row"
    by (simp add: run_defs)
  have h2: "distinct (map User_id (users db_recycle))"
    by (simp add: run_defs)
  have h3: "find (\<lambda>c. Challenge_id c = SubmissionCreate_challenge_id photo) (challenges db_recycle)
       = Some recycle_row"
    by (simp add: run_defs)
  have h4: "submit_route test_libs 0 db_recycle ''Bearer tok-admin'' photo
       = (db_once, Inr (Msg (''Challenge completed! '' @ str_int 10 @ '' points added.'')))"
    by (simp add: run_defs)
  show ?thesis
    using submit_adds_points_and_row [OF h1 h2 h3, of db_once
        "Msg (''Challenge completed! '' @ str_int 10 @ '' points added.'')"] h1 h2 h3 h4
    by blast
qed

text \<open>
  C2, as amended. In every reachable state the points of each user equal the sum, over
  all submission rows of that user, of the points of the submitted challenge: a challenge
  submitted twice counts twice.
\<close>

theorem points_equal_submission_sum:
  "reachable db \<Longrightarrow> \<forall>u \<in> set (users db). User_points u = points_of_submissions db (User_id u)"
  using reachable_consistent [of db] by (simp add: consistent_def)

theorem points_equal_submission_sum_witness:
  "reachable db_twice
   \<and> admin_row\<lparr>User_points := 20\<rparr> \<in> set (users db_twice)
   \<and> User_points (admin_row\<lparr>User_points := 20\<rparr>)
       = points_of_submissions db_twice (User_id (admin_row\<lparr>User_points := 20\<rparr>))"
proof -
  have m: "admin_row\<lparr>User_points := 20\<rparr> \<in> set (users db_twice)"
    by (simp add: run_defs)
  show ?thesis
    using points_equal_submission_sum [OF reachable_db_twice] reachable_db_twice m by blast
qed

text \<open>
  C2, as stated, fails: after the admin has submitted twice to the 10-point challenge the
  admin holds 20 points, while the challenges with a submission of the admin sum to 10.
\<close>

theorem points_per_challenge_counterexample:
  "reachable db_twice \<and> user_points db_twice 1 = Some 20
   \<and> points_of_submitted_challenges db_twice 1 = 10"
  using reachable_db_twice by (simp add: run_defs)

text \<open>
  C3, as amended. From a reachable state, no request makes the points of a user smaller,
  provided that a submission is to a challenge whose point value is not negative; a
  user that exists before the request exists after it.
\<close>

theorem points_never_decrease:
  assumes r: "reachable db"
      and nonneg: "\<forall>authorization sb. r = Submit authorization sb
                     \<longrightarrow> 0 \<le> reward db (SubmissionCreate_challenge_id sb)"
      and p: "user_points db uid = Some p"
  shows "\<exists>p'. user_points (handle L now db r) uid = Some p' \<and> p \<le> p'"
proof (cases r)
  case (Submit authorization sb)
  have key: "distinct (map User_id (users db))"
    using reachable_consistent [OF r] by (simp add: consistent_def)
  have nn: "0 \<le> reward db (SubmissionCreate_challenge_id sb)"
    using nonneg Submit by simp
  show ?thesis
  proof (cases "get_current_user L now db authorization")
    case (Inl e)
    then show ?thesis using p Submit by (simp add: handle_def submit_route_def)
  next
    case (Inr cu)
    have "cu \<in> set (users db)" using Inr by (rule guard_user_in_db)
    then show ?thesis
      using user_points_submit [OF key _ nn p, of cu] Submit Inr
      by (simp add: handle_def submit_route_def)
  qed
qed (use p in \<open>simp_all add: handle_def user_points_seed_admin user_points_register
       user_points_create_challenge\<close>)

theorem points_never_decrease_witness:
  "reachable db_recycle
   \<and> 0 \<le> reward db_recycle (SubmissionCreate_challenge_id photo)
   \<and> user_points db_recycle 1 = Some 0
   \<and> (\<exists>p'. user_points (handle test_libs 0 db_recycle (Submit ''Bearer tok-admin'' photo)) 1 = Some p'
         \<and> 0 \<le> p')"
proof -
  have h2: "0 \<le> reward db_recycle (SubmissionCreate_challenge_id photo)"
    by (simp add: run_defs)
  have h3: "user_points db_recycle 1 = Some 0"
    by (simp add: run_defs)
  have "\<exists>p'. user_points (handle test_libs 0 db_recycle (Submit ''Bearer tok-admin'' photo)) 1 = Some p'
         \<and> 0 \<le> p'"
    using h2 by (intro points_never_decrease [OF reachable_db_recycle _ h3]) simp
  then show ?thesis
    using reachable_db_recycle h2 h3 by blast
qed

text \<open>
  C3, as stated, fails: the admin may create a challenge worth -5 points, and the
  submission to it takes the submitting user from 0 points to -5.
\<close>

theorem negative_challenge_counterexample:
  "reachable db_penalty \<and> user_points db_penalty 1 = Some 0
   \<and> user_points (handle test_libs 0 db_penalty (Submit ''Bearer tok-admin'' photo)) 1 = Some (- 5)"
  using reachable_db_penalty by (simp add: run_defs)

text \<open>
  C4. Registering a name that is taken fails with 400 "Username taken" and returns the
  state as it was. So when a free name is registered and then registered again, the
  first call succeeds, the second fails with that error, and the users table ends one
  row longer than it started.
\<close>

theorem register_twice_conflict:
  "(find (\<lambda>u. User_username u = RegisterRequest_username rq) (users d) = Some u
      \<longrightarrow> register L s d rq = (d, Inl (HTTPException 400 ''Username taken'')))
   \<and> (find (\<lambda>u. User_username u = RegisterRequest_username req) (users db) = None
       \<and> RegisterRequest_username req' = RegisterRequest_username req
      \<longrightarrow> snd (register L salt db req) = Inr (Msg ''User registered'')
          \<and> register L salt' (fst (register L salt db req)) req'
              = (fst (register L salt db req), Inl (HTTPException 400 ''Username taken''))
          \<and> length (users (fst (register L salt' (fst (register L salt db req)) req')))
              = length (users db) + 1)"
proof (intro conjI impI)
  assume "find (\<lambda>u. User_username u = RegisterRequest_username rq) (users d) = Some u"
  then show "register L s d rq = (d, Inl (HTTPException 400 ''Username taken''))"
    by (simp add: register_def)
next
  assume a: "find (\<lambda>u. User_username u = RegisterRequest_username req) (users db) = None
       \<and> RegisterRequest_username req' = RegisterRequest_username req"
  let ?db1 = "fst (register L salt db req)"
  have first: "register L salt db req =
      (add_user db (RegisterRequest_username req)
             (pwd_hash L salt (RegisterRequest_password req)) ''student'' 0,
       Inr (Msg ''User registered''))"
    using a by (simp add: register_def)
  have taken: "\<exists>u. find (\<lambda>u. User_username u = RegisterRequest_username req') (users ?db1) = Some u"
    using a by (simp add: first add_user_def find_append)
  then have second: "register L salt' ?db1 req' = (?db1, Inl (HTTPException 400 ''Username taken''))"
    by (auto simp: register_def)
  show "snd (register L salt db req) = Inr (Msg ''User registered'')"
    by (simp add: first)
  show "register L salt' ?db1 req' = (?db1, Inl (HTTPException 400 ''Username taken''))"
    by (rule second)
  show "length (users (fst (register L salt' ?db1 req'))) = length (users db) + 1"
    by (simp add: second) (simp add: first add_user_def)
qed

theorem register_twice_conflict_witness:
  "find (\<lambda>u. User_username u = RegisterRequest_username admin_again) (users db_seeded) = Some admin_row
   \<and> register test_libs ''s0'' db_seeded admin_again
       = (db_seeded, Inl (HTTPException 400 ''Username taken''))
   \<and> find (\<lambda>u. User_username u = RegisterRequest_username alice) (users db_seeded) = None
   \<and> RegisterRequest_username alice = RegisterRequest_username alice
   \<and> snd (register test_libs ''s1'' db_seeded alice) = Inr (Msg ''User registered'')
   \<and> register test_libs ''s2'' (fst (register test_libs ''s1'' db_seeded alice)) alice
        = (fst (register test_libs ''s1'' db_seeded alice), Inl (HTTPException 400 ''Username taken''))
   \<and> length (users (fst (register test_libs ''s2'' (fst (register test_libs ''s1'' db_seeded alice)) alice)))
        = length (users db_seeded) + 1"
proof -
  have h1: "find (\<lambda>u. User_username u = RegisterRequest_username admin_again) (users db_seeded) = Some admin_row"
    by (simp add: run_defs)
  have h2: "find (\<lambda>u. User_username u = RegisterRequest_username alice) (users db_seeded) = None"
    by (simp add: run_defs)
  show ?thesis
    using register_twice_conflict [of admin_again db_seeded admin_row test_libs "''s0''" alice db_seeded alice "''s1''" "''s2''"] h1 h2
    by blast
qed

text \<open>
  C5. For a name that is not yet registered and a password that the hashing context
  verifies against its own hash, register succeeds and a login with the same pair in the
  resulting state succeeds; the token returned is the encoding, under the service's key
  and algorithm, of a payload whose \<open>sub\<close> is that name (and whose expiry is one hour
  after the login).
\<close>

theorem register_then_login:
  assumes free: "find (\<lambda>u. User_username u = name) (users db) = None"
      and lib: "pwd_verify L password (pwd_hash L salt password)"
  shows "\<exists>db' resp.
           register L salt db \<lparr>RegisterRequest_username = name, RegisterRequest_password = password\<rparr>
             = (db', Inr (Msg ''User registered''))
           \<and> login L now db' \<lparr>LoginRequest_username = name, LoginRequest_password = password\<rparr>
               = Inr resp
           \<and> access_token resp
               = jwt_encode L \<lparr>sub = Some name, exp = Some (now + 60 * 60)\<rparr> SECRET_KEY ALGORITHM
           \<and> LoginResponse_username resp = name
           \<and> LoginResponse_role resp = ''student''
           \<and> LoginResponse_points resp = 0"
  using free lib
  by (simp add: register_def login_def add_user_def find_append create_access_token_def
      to_encode_def timedelta_minutes_def ACCESS_TOKEN_EXPIRE_MINUTES_def)

theorem register_then_login_witness:
  "find (\<lambda>u. User_username u = ''alice'') (users db_seeded) = None
   \<and> pwd_verify test_libs ''pw1'' (pwd_hash test_libs ''s1'' ''pw1'')
   \<and> (\<exists>db' resp.
           register test_libs ''s1'' db_seeded
               \<lparr>RegisterRequest_username = ''alice'', RegisterRequest_password = ''pw1''\<rparr>
             = (db', Inr (Msg ''User registered''))
           \<and> login test_libs 0 db' \<lparr>LoginRequest_username = ''alice'', LoginRequest_password = ''pw1''\<rparr>
               = Inr resp
           \<and> access_token resp
               = jwt_encode test_libs \<lparr>sub = Some ''alice'', exp = Some (0 + 60 * 60)\<rparr> SECRET_KEY ALGORITHM
           \<and> LoginResponse_username resp = ''alice''
           \<and> LoginResponse_role resp = ''student''
           \<and> LoginResponse_points resp = 0)"
proof -
  have h1: "find (\<lambda>u. User_username u = ''alice'') (users db_seeded) = None"
    by (simp add: run_defs)
  have h2: "pwd_verify test_libs ''pw1'' (pwd_hash test_libs ''s1'' ''pw1'')"
    by (simp add: test_libs_def)
  show ?thesis
    using register_then_login [OF h1 h2, of 0] h1 h2 by blast
qed

text \<open>
  C6. For every state the leaderboard is sorted by points in descending order and holds
  exactly one entry per row of the users table, with that user's name, points and role.
\<close>

theorem leaderboard_sorted_complete:
  "sorted_wrt (\<ge>) (map LeaderboardEntry_points (leaderboard db))
   \<and> mset (leaderboard db) =
       image_mset (\<lambda>u. \<lparr>LeaderboardEntry_username = User_username u,
                         LeaderboardEntry_points = User_points u,
                         LeaderboardEntry_role = User_role u\<rparr>) (mset (users db))
   \<and> length (leaderboard db) = length (users db)"
proof -
  have "map LeaderboardEntry_points (leaderboard db)
        = map User_points (sort_key (\<lambda>u. - User_points u) (users db))"
    by (simp add: leaderboard_def comp_def)
  then have "sorted_wrt (\<ge>) (map LeaderboardEntry_points (leaderboard db))"
    using sorted_desc [of "users db"] by simp
  moreover have "mset (leaderboard db) =
       image_mset (\<lambda>u. \<lparr>LeaderboardEntry_username = User_username u,
                         LeaderboardEntry_points = User_points u,
                         LeaderboardEntry_role = User_role u\<rparr>) (mset (users db))"
    by (simp add: leaderboard_def)
  moreover have "length (leaderboard db) = length (users db)"
    by (simp add: leaderboard_def)
  ultimately show ?thesis by blast
qed

text \<open>
  C7, as amended. Called without an expiry delta, \<open>create_access_token\<close> sets the
  expiry 15 minutes after the time of issue. Login always passes the configured 60
  minutes, so the token of every successful login expires 60 minutes after it was issued.
\<close>

theorem token_ttl:
  "create_access_token L now data None
     = jwt_encode L (data\<lparr>exp := Some (now + 15 * 60)\<rparr>) SECRET_KEY ALGORITHM
   \<and> (login L now db req = Inr resp \<longrightarrow>
        access_token resp
          = jwt_encode L \<lparr>sub = Some (LoginRequest_username req), exp = Some (now + 60 * 60)\<rparr>
              SECRET_KEY ALGORITHM)"
  by (auto simp: login_def create_access_token_def to_encode_def timedelta_minutes_def
      ACCESS_TOKEN_EXPIRE_MINUTES_def split: option.splits if_splits)

theorem token_ttl_witness:
  "create_access_token test_libs 1000 \<lparr>sub = Some ''admin'', exp = None\<rparr> None
     = jwt_encode test_libs \<lparr>sub = Some ''admin'', exp = Some (1000 + 15 * 60)\<rparr> SECRET_KEY ALGORITHM
   \<and> login test_libs 1000 db_seeded admin_login
       = Inr \<lparr>access_token = ''tok-admin'', token_type = ''bearer'', LoginResponse_role = ''admin'',
              LoginResponse_username = ''admin'', LoginResponse_points = 0\<rparr>
   \<and> access_token \<lparr>access_token = ''tok-admin'', token_type = ''bearer'', LoginResponse_role = ''admin'',
              LoginResponse_username = ''admin'', LoginResponse_points = 0\<rparr>
       = jwt_encode test_libs \<lparr>sub = Some (LoginRequest_username admin_login), exp = Some (1000 + 60 * 60)\<rparr>
              SECRET_KEY ALGORITHM"
proof -
  have h: "login test_libs 1000 db_seeded admin_login
       = Inr \<lparr>access_token = ''tok-admin'', token_type = ''bearer'', LoginResponse_role = ''admin'',
              LoginResponse_username = ''admin'', LoginResponse_points = 0\<rparr>"
    by (simp add: run_defs admin_login_def create_access_token_def to_encode_def)
  show ?thesis
    using token_ttl [of test_libs 1000 "\<lparr>sub = Some ''admin'', exp = None\<rparr>" db_seeded admin_login
        "\<lparr>access_token = ''tok-admin'', token_type = ''bearer'', LoginResponse_role = ''admin'',
              LoginResponse_username = ''admin'', LoginResponse_points = 0\<rparr>"] h
    by (simp del: One_nat_def)
qed

text \<open>
  C7, as stated, fails: a token issued at second 1000 without an expiry delta expires at
  second 1900, which is 15 minutes and not 60 minutes later.
\<close>

theorem default_ttl_counterexample:
  "exp (to_encode \<lparr>sub = Some ''admin'', exp = None\<rparr> None 1000) = Some 1900
   \<and> create_access_token test_libs 1000 \<lparr>sub = Some ''admin'', exp = None\<rparr> None
       = jwt_encode test_libs \<lparr>sub = Some ''admin'', exp = Some 1900\<rparr> SECRET_KEY ALGORITHM
   \<and> (1900::int) \<noteq> 1000 + 60 * 60"
  by (simp add: to_encode_def create_access_token_def timedelta_minutes_def)

text \<open>
  C8. Verification of a token has two distinct failures. A string that is no token, and
  a token signed with another key or under an algorithm that is not accepted, fail as
  malformed (\<open>JWTError\<close>). A token signed with the right key fails as expired
  (\<open>ExpiredSignatureError\<close>) when it is verified after its expiry; so does the token
  that \<open>create_access_token\<close> builds with a time to live \<open>d\<close> at time \<open>t\<close>, when it is
  verified at any time after \<open>t + d\<close>.
\<close>

theorem token_verify_failure_modes:
  "token_verify (Junk s) key algorithms now = Inl JWTError
   \<and> (k \<noteq> key \<or> a \<notin> set algorithms
        \<longrightarrow> token_verify (Signed p k a) key algorithms now = Inl JWTError)
   \<and> (a' \<in> set algorithms \<and> exp p = Some e \<and> e < now
        \<longrightarrow> token_verify (Signed p key a') key algorithms now = Inl ExpiredSignatureError)
   \<and> (d \<noteq> 0 \<and> 0 < eps
        \<longrightarrow> token_verify (token_issue (to_encode data (Some d) t) SECRET_KEY ALGORITHM)
              SECRET_KEY [ALGORITHM] (t + d + eps) = Inl ExpiredSignatureError)
   \<and> JWTError \<noteq> ExpiredSignatureError"
  by (auto simp: token_verify_def token_issue_def to_encode_def)

theorem token_verify_failure_modes_witness:
  "token_verify (Junk ''garbage'') SECRET_KEY [ALGORITHM] 3601 = Inl JWTError
   \<and> ''another key'' \<noteq> SECRET_KEY
   \<and> token_verify (Signed \<lparr>sub = Some ''admin'', exp = Some 3600\<rparr> ''another key'' ALGORITHM)
        SECRET_KEY [ALGORITHM] 3601 = Inl JWTError
   \<and> ALGORITHM \<in> set [ALGORITHM]
   \<and> exp \<lparr>sub = Some ''admin'', exp = Some 3600\<rparr> = Some 3600
   \<and> (3600::int) < 3601
   \<and> token_verify (Signed \<lparr>sub = Some ''admin'', exp = Some 3600\<rparr> SECRET_KEY ALGORITHM)
        SECRET_KEY [ALGORITHM] 3601 = Inl ExpiredSignatureError
   \<and> (3600::int) \<noteq> 0
   \<and> (0::int) < 1
   \<and> token_verify
        (token_issue (to_encode \<lparr>sub = Some ''admin'', exp = None\<rparr> (Some 3600) 0)
           SECRET_KEY ALGORITHM)
        SECRET_KEY [ALGORITHM] (0 + 3600 + 1) = Inl ExpiredSignatureError
   \<and> JWTError \<noteq> ExpiredSignatureError"
proof -
  have h1: "''another key'' \<noteq> SECRET_KEY" by (simp add: SECRET_KEY_def)
  have h2: "ALGORITHM \<in> set [ALGORITHM]" by simp
  have h3: "exp \<lparr>sub = Some ''admin'', exp = Some 3600\<rparr> = Some 3600" by simp
  have h4: "(3600::int) < 3601" and h5: "(3600::int) \<noteq> 0" and h6: "(0::int) < 1"
    by simp_all
  show ?thesis
    using token_verify_failure_modes [of "''garbage''" SECRET_KEY "[ALGORITHM]" 3601
        "''another key''" ALGORITHM "\<lparr>sub = Some ''admin'', exp = Some 3600\<rparr>"
        ALGORITHM 3600 3600 1 "\<lparr>sub = Some ''admin'', exp = None\<rparr>" 0]
      h1 h2 h3 h4 h5 h6
    by blast
qed

text \<open>
  C9. A protected submission that fails leaves the state as it was, whatever the failure:
  the guard rejects the caller, the requested id does not fit, the challenge is missing,
  or the commit raises because the new total does not fit and its transaction is rolled
  back. For an authenticated caller a missing challenge gives 404 "Challenge not found",
  and a total that does not fit gives the server error with neither the row nor the
  points stored.
\<close>

theorem submit_failure_atomic:
  "(submit_route L now db authorization sb = (db', Inl e) \<longrightarrow> db' = db)
   \<and> (get_current_user L1 now1 db1 authorization1 = Inr U1
       \<and> in_int64 (SubmissionCreate_challenge_id sb1)
       \<and> find (\<lambda>c. Challenge_id c = SubmissionCreate_challenge_id sb1) (challenges db1) = None
      \<longrightarrow> submit_route L1 now1 db1 authorization1 sb1
            = (db1, Inl (HTTPException 404 ''Challenge not found'')))
   \<and> (get_current_user L2 now2 db2 authorization2 = Inr U2
       \<and> find (\<lambda>c. Challenge_id c = SubmissionCreate_challenge_id sb2) (challenges db2) = Some C2
       \<and> \<not> in_int64 (User_points U2 + Challenge_points C2)
      \<longrightarrow> submit_route L2 now2 db2 authorization2 sb2
            = (db2, Inl (HTTPException 500 ''Internal Server Error'')))"
proof (intro conjI impI)
  assume a: "submit_route L now db authorization sb = (db', Inl e)"
  show "db' = db"
  proof (cases "get_current_user L now db authorization")
    case (Inl x)
    then show ?thesis using a by (simp add: submit_route_def)
  next
    case (Inr U)
    then have s: "submit db sb U = (db', Inl e)" using a by (simp add: submit_route_def)
    show ?thesis
    proof (cases rule: submit_cases [of db sb U])
      case (fail x)
      then show ?thesis using s by simp
    next
      case (ok C)
      then show ?thesis using s by (simp add: submit_ok [OF ok])
    qed
  qed
next
  assume "get_current_user L1 now1 db1 authorization1 = Inr U1
       \<and> in_int64 (SubmissionCreate_challenge_id sb1)
       \<and> find (\<lambda>c. Challenge_id c = SubmissionCreate_challenge_id sb1) (challenges db1) = None"
  then show "submit_route L1 now1 db1 authorization1 sb1
            = (db1, Inl (HTTPException 404 ''Challenge not found''))"
    by (simp add: submit_route_def submit_def)
next
  assume "get_current_user L2 now2 db2 authorization2 = Inr U2
       \<and> find (\<lambda>c. Challenge_id c = SubmissionCreate_challenge_id sb2) (challenges db2) = Some C2
       \<and> \<not> in_int64 (User_points U2 + Challenge_points C2)"
  then show "submit_route L2 now2 db2 authorization2 sb2
            = (db2, Inl (HTTPException 500 ''Internal Server Error''))"
    by (simp add: submit_route_def submit_def commit_def server_error_def Let_def)
qed

theorem submit_failure_atomic_witness:
  "submit_route test_libs 0 db_max_once ''Bearer tok-admin'' photo
     = (db_max_once, Inl (HTTPException 500 ''Internal Server Error''))
   \<and> get_current_user test_libs 0 db_seeded ''Bearer tok-admin'' = Inr admin_row
   \<and> in_int64 (SubmissionCreate_challenge_id photo)
   \<and> find (\<lambda>c. Challenge_id c = SubmissionCreate_challenge_id photo) (challenges db_seeded) = None
   \<and> submit_route test_libs 0 db_seeded ''Bearer tok-admin'' photo
       = (db_seeded, Inl (HTTPException 404 ''Challenge not found''))
   \<and> get_current_user test_libs 0 db_max_once ''Bearer tok-admin''
       = Inr (admin_row\<lparr>User_points := 9223372036854775807\<rparr>)
   \<and> find (\<lambda>c. Challenge_id c = SubmissionCreate_challenge_id photo) (challenges db_max_once)
       = Some max_row
   \<and> \<not> in_int64 (User_points (admin_row\<lparr>User_points := 9223372036854775807\<rparr>)
                  + Challenge_points max_row)
   \<and> length (submissions db_max_once) = 1
   \<and> user_points db_max_once 1 = Some 9223372036854775807"
proof -
  have h1: "get_current_user test_libs 0 db_seeded ''Bearer tok-admin'' = Inr admin_row"
    by (simp add: run_defs)
  have h2: "in_int64 (SubmissionCreate_challenge_id photo)"
    by (simp add: run_defs)
  have h3: "find (\<lambda>c. Challenge_id c = SubmissionCreate_challenge_id photo) (challenges db_seeded) = None"
    by (simp add: run_defs)
  have h4: "get_current_user test_libs 0 db_max_once ''Bearer tok-admin''
       = Inr (admin_row\<lparr>User_points := 9223372036854775807\<rparr>)"
    by (simp add: run_defs)
  have h5: "find (\<lambda>c. Challenge_id c = SubmissionCreate_challenge_id photo) (challenges db_max_once)
       = Some max_row"
    by (simp add: run_defs)
  have h6: "\<not> in_int64 (User_points (admin_row\<lparr>User_points := 9223372036854775807\<rparr>)
                  + Challenge_points max_row)"
    by (simp add: run_defs)
  have h7: "length (submissions db_max_once) = 1"
    and h8: "user_points db_max_once 1 = Some 9223372036854775807"
    by (simp_all add: run_defs)
  show ?thesis
    using submit_failure_atomic [of test_libs 0 db_max_once "''Bearer tok-admin''" photo
        db_max_once "HTTPException 500 ''Internal Server Error''"
        test_libs 0 db_seeded "''Bearer tok-admin''" admin_row photo
        test_libs 0 db_max_once "''Bearer tok-admin''"
        "admin_row\<lparr>User_points := 9223372036854775807\<rparr>" photo max_row]
      h1 h2 h3 h4 h5 h6 h7 h8
    by blast
qed

text \<open>
  C10, as amended. Let the guard authenticate \<open>U\<close> in a reachable state in which \<open>U\<close>
  already has a submission for the stored challenge \<open>C\<close>. Then the same submission, sent
  \<open>n\<close> more times, succeeds every time, adds \<open>n\<close> rows linking \<open>U\<close> and \<open>C\<close> and adds
  \<open>n\<close> times the points of \<open>C\<close>, provided that the final total fits the store's 64-bit
  integers. There is no other limit and no deduplication.
\<close>

theorem resubmission_within_range:
  assumes auth: "get_current_user L now db authorization = Inr U"
      and ch: "find (\<lambda>c. Challenge_id c = SubmissionCreate_challenge_id sb) (challenges db) = Some C"
      and again: "links db (User_id U) (Challenge_id C) \<noteq> []"
      and r: "reachable db"
      and rng: "in_int64 (SubmissionCreate_challenge_id sb)"
      and fits: "in_int64 (User_points U + int n * Challenge_points C)"
  shows "user_points (resubmit L now authorization sb n db) (User_id U)
           = Some (User_points U + int n * Challenge_points C)
         \<and> length (links (resubmit L now authorization sb n db) (User_id U) (Challenge_id C))
           = length (links db (User_id U) (Challenge_id C)) + n
         \<and> (0 < n \<longrightarrow> (\<exists>m. snd (submit_route L now db authorization sb) = Inr m))"
proof -
  have c: "consistent db" using r by (rule reachable_consistent)
  have key: "distinct (map User_id (users db))"
    using c by (simp add: consistent_def)
  have U: "U \<in> set (users db)" using auth by (rule guard_user_in_db)
  have p0: "in_int64 (User_points U)"
    using c U unfolding consistent_def by blast
  have steps: "in_int64 (User_points U + int i * Challenge_points C)" if "1 \<le> i" "i \<le> n" for i
    using p0 fits that(2) by (rule in_int64_between)
  have grows: "user_points (resubmit L now authorization sb n db) (User_id U)
           = Some (User_points U + int n * Challenge_points C)
         \<and> length (links (resubmit L now authorization sb n db) (User_id U) (Challenge_id C))
           = length (links db (User_id U) (Challenge_id C)) + n"
    using auth key rng ch steps by (rule resubmit_grows)
  have "\<exists>m. snd (submit_route L now db authorization sb) = Inr m" if "0 < n"
  proof -
    have "in_int64 (User_points U + Challenge_points C)"
      using steps [of 1] that by simp
    then show ?thesis
      using auth by (simp add: submit_route_def submit_ok [OF rng ch])
  qed
  then show ?thesis using grows by blast
qed

theorem resubmission_within_range_witness:
  "get_current_user test_libs 0 db_once ''Bearer tok-admin'' = Inr (admin_row\<lparr>User_points := 10\<rparr>)
   \<and> find (\<lambda>c. Challenge_id c = SubmissionCreate_challenge_id photo) (challenges db_once)
       = Some recycle_row
   \<and> links db_once (User_id (admin_row\<lparr>User_points := 10\<rparr>)) (Challenge_id recycle_row) \<noteq> []
   \<and> reachable db_once
   \<and> in_int64 (SubmissionCreate_challenge_id photo)
   \<and> in_int64 (User_points (admin_row\<lparr>User_points := 10\<rparr>) + int 3 * Challenge_points recycle_row)
   \<and> user_points (resubmit test_libs 0 ''Bearer tok-admin'' photo 3 db_once)
         (User_id (admin_row\<lparr>User_points := 10\<rparr>))
       = Some (User_points (admin_row\<lparr>User_points := 10\<rparr>) + int 3 * Challenge_points recycle_row)
   \<and> length (links (resubmit test_libs 0 ''Bearer tok-admin'' photo 3 db_once)
         (User_id (admin_row\<lparr>User_points := 10\<rparr>)) (Challenge_id recycle_row))
       = length (links db_once (User_id (admin_row\<lparr>User_points := 10\<rparr>)) (Challenge_id recycle_row)) + 3
   \<and> (0::nat) < 3
   \<and> (\<exists>m. snd (submit_route test_libs 0 db_once ''Bearer tok-admin'' photo) = Inr m)"
proof -
  have h1: "get_current_user test_libs 0 db_once ''Bearer tok-admin''
              = Inr (admin_row\<lparr>User_points := 10\<rparr>)"
    by (simp add: run_defs)
  have h2: "find (\<lambda>c. Challenge_id c = SubmissionCreate_challenge_id photo) (challenges db_once)
       = Some recycle_row"
    by (simp add: run_defs)
  have h3: "links db_once (User_id (admin_row\<lparr>User_points := 10\<rparr>)) (Challenge_id recycle_row) \<noteq> []"
    by (simp add: run_defs)
  have h4: "in_int64 (SubmissionCreate_challenge_id photo)"
    by (simp add: run_defs)
  have h5: "in_int64 (User_points (admin_row\<lparr>User_points := 10\<rparr>)
                      + int 3 * Challenge_points recycle_row)"
    by (simp add: run_defs)
  have h6: "(0::nat) < 3" by simp
  show ?thesis
    using resubmission_within_range [OF h1 h2 h3 reachable_db_once h4 h5]
      h1 h2 h3 reachable_db_once h4 h5 h6
    by blast
qed

text \<open>
  C10, as stated, fails: the admin holds 9223372036854775807 points from one submission
  to the challenge of that value, and the further submission to the same challenge
  fails with the server error and stores nothing.
\<close>

theorem resubmission_overflow_counterexample:
  "reachable db_max_once
   \<and> get_current_user test_libs 0 db_max_once ''Bearer tok-admin''
       = Inr (admin_row\<lparr>User_points := 9223372036854775807\<rparr>)
   \<and> find (\<lambda>c. Challenge_id c = SubmissionCreate_challenge_id photo) (challenges db_max_once)
       = Some max_row
   \<and> links db_max_once 1 1 \<noteq> []
   \<and> submit_route test_libs 0 db_max_once ''Bearer tok-admin'' photo
       = (db_max_once, Inl (HTTPException 500 ''Internal Server Error''))"
  using reachable_db_max_once by (simp add: run_defs)

end
